theory Spec2Isabelle
  imports Complex_Main "HOL-Library.Multiset" "HOL-Library.Char_ord" "HOL-Library.List_Lexorder"
begin

section \<open>Data model\<close>

text \<open>
  The program (\<^verbatim>\<open>src/app.py\<close>) reads two spreadsheets with pandas, sums the order
  amount per customer, outer-joins the two per-customer tables and derives a delta and a
  ratio per customer. Numbers are modelled as rationals (the ideal values of the float64
  and int64 cells); strings are byte lists (UTF-8), whose lexicographic order is the code
  point order Python compares strings by. The user-interface calls (\<^verbatim>\<open>st.error\<close>,
  \<^verbatim>\<open>st.info\<close>, \<^verbatim>\<open>st.warning\<close>) only display text and are left out.
\<close>

type_synonym amount = rat

text \<open>A spreadsheet cell as pandas holds it: a number, a string, or missing (NaN).\<close>

datatype cell = Num amount | Str string | NaN

datatype column = Tokuisaki | Juchugaku | Tantousha | Hinmei | Arari

datatype error = ReadError | ConvertError | IndexError | ReError

text \<open>
  One row of the uploaded sheet, restricted to the columns the program reads:
  the customer (\<open>Tokuisaki\<close>; \<open>None\<close> is an empty cell), the order amount (\<open>Juchugaku\<close>)
  and the gross profit (\<open>Arari\<close>, the column "gross profit (B-L)"). \<open>columns\<close> lists the columns the sheet has; the cells of
  an absent column are never read.
\<close>

record raw_row =
  r_customer :: "string option"
  r_amount :: cell
  r_profit :: cell

record data_frame =
  columns :: "column list"
  rows :: "raw_row list"

text \<open>
  The result of \<^verbatim>\<open>process_excel_data\<close>: one row per customer with the summed amount
  (the columns renamed to customer name and sales amount) and, when \<open>has_profit\<close>, the summed gross profit.
\<close>

record agg_row =
  customer :: string
  total_amount :: amount
  total_profit :: amount

record aggregate =
  has_profit :: bool
  agg_rows :: "agg_row list"

section \<open>Ingestion: \<^verbatim>\<open>process_excel_data\<close>\<close>

text \<open>A pandas column has dtype \<^verbatim>\<open>object\<close> when it holds a string cell.\<close>

fun is_Str :: "cell \<Rightarrow> bool" where
  "is_Str (Str s) = True"
| "is_Str c = False"

definition dtype_object :: "cell list \<Rightarrow> bool" where
  "dtype_object cs = list_ex is_Str cs"

text \<open>
  \<^verbatim>\<open>pd.to_numeric(col, errors='coerce')\<close> is a library call that the source guards with
  \<^verbatim>\<open>try\<close>/\<^verbatim>\<open>except\<close>; it is a parameter \<open>to_numeric\<close> of the model, returning either an
  error or a numeric column of the same length (\<open>None\<close> is NaN). \<open>pd_to_numeric\<close> is the library's behaviour
  on cells of the three kinds above, for a given parser \<open>parse\<close> of numeric strings.
\<close>

fun coerce :: "(string \<Rightarrow> amount option) \<Rightarrow> cell \<Rightarrow> amount option" where
  "coerce parse (Num x) = Some x"
| "coerce parse (Str s) = parse s"
| "coerce parse NaN = None"

definition pd_to_numeric :: "(string \<Rightarrow> amount option) \<Rightarrow> cell list \<Rightarrow> error + amount option list" where
  "pd_to_numeric parse cs = Inr (map (coerce parse) cs)"

fun of_numeric :: "amount option \<Rightarrow> cell" where
  "of_numeric None = NaN"
| "of_numeric (Some x) = Num x"

text \<open>Lines 65-66: the converted column replaces the old one, then \<^verbatim>\<open>dropna\<close> on it.\<close>

definition set_amounts :: "raw_row list \<Rightarrow> amount option list \<Rightarrow> raw_row list" where
  "set_amounts rs vs = map (\<lambda>(r, v). r\<lparr>r_amount := of_numeric v\<rparr>) (zip rs vs)"

definition set_profits :: "raw_row list \<Rightarrow> amount option list \<Rightarrow> raw_row list" where
  "set_profits rs vs = map (\<lambda>(r, v). r\<lparr>r_profit := of_numeric v\<rparr>) (zip rs vs)"

definition dropna_amount :: "raw_row list \<Rightarrow> raw_row list" where
  "dropna_amount rs = filter (\<lambda>r. r_amount r \<noteq> NaN) rs"

text \<open>
  \<^verbatim>\<open>df.groupby(customer)[col].sum()\<close>: rows with a missing key are left out, the groups
  come out sorted by key, and the sum skips missing cells (an all-missing group sums to 0).
\<close>

fun cell_value :: "cell \<Rightarrow> amount" where
  "cell_value (Num x) = x"
| "cell_value c = 0"

definition group_keys :: "raw_row list \<Rightarrow> string list" where
  "group_keys rs = sort (remdups (List.map_filter r_customer rs))"

definition groupby_sum :: "(raw_row \<Rightarrow> cell) \<Rightarrow> raw_row list \<Rightarrow> string \<Rightarrow> amount" where
  "groupby_sum col rs k = sum_list (map (\<lambda>r. cell_value (col r)) (filter (\<lambda>r. r_customer r = Some k) rs))"

text \<open>
  Lines 63-70: the order amount is coerced only when its column has dtype \<^verbatim>\<open>object\<close>;
  a failure of the conversion makes the function return \<^verbatim>\<open>None\<close>.
\<close>

definition coerce_amounts :: "(cell list \<Rightarrow> error + amount option list) \<Rightarrow> raw_row list \<Rightarrow> raw_row list option" where
  "coerce_amounts to_numeric rs =
     (if dtype_object (map r_amount rs) then
        (case to_numeric (map r_amount rs) of
           Inl e \<Rightarrow> None
         | Inr vs \<Rightarrow> Some (dropna_amount (set_amounts rs vs)))
      else Some rs)"

text \<open>
  Lines 76-85: the gross profit is coerced when its column has dtype \<^verbatim>\<open>object\<close>; when the
  conversion raises, the column keeps its dtype and is not aggregated.
\<close>

definition coerce_profits :: "(cell list \<Rightarrow> error + amount option list) \<Rightarrow> raw_row list \<Rightarrow> raw_row list" where
  "coerce_profits to_numeric rs =
     (if dtype_object (map r_profit rs) then
        (case to_numeric (map r_profit rs) of
           Inl e \<Rightarrow> rs
         | Inr vs \<Rightarrow> set_profits rs vs)
      else rs)"

definition required_columns :: "column list" where
  "required_columns = [Tokuisaki, Juchugaku]"

text \<open>
  Line 73, \<^verbatim>\<open>result_df\<close>: the summed amount per customer. Lines 84-85: the summed gross
  profit per customer, merged onto \<^verbatim>\<open>result_df\<close> by customer (both are grouped from the
  same rows, so every customer of the one is a customer of the other).
\<close>

definition amount_by_customer :: "raw_row list \<Rightarrow> agg_row list" where
  "amount_by_customer rs =
     map (\<lambda>k. \<lparr>customer = k, total_amount = groupby_sum r_amount rs k, total_profit = 0\<rparr>) (group_keys rs)"

definition merge_profit :: "raw_row list \<Rightarrow> agg_row list \<Rightarrow> agg_row list" where
  "merge_profit rs result_df =
     map (\<lambda>a. a\<lparr>total_profit := groupby_sum r_profit rs (customer a)\<rparr>) result_df"

text \<open>
  The body of the outer \<^verbatim>\<open>try\<close>: \<open>Inl e\<close> is an exception raised inside it, \<open>Inr None\<close>
  an explicit \<^verbatim>\<open>return None\<close>, \<open>Inr (Some t)\<close> the table returned.
\<close>

definition process_excel_body ::
  "('f \<Rightarrow> error + data_frame) \<Rightarrow> (cell list \<Rightarrow> error + amount option list) \<Rightarrow> 'f \<Rightarrow> error + aggregate option" where
  "process_excel_body read_excel to_numeric file =
     (case read_excel file of
        Inl e \<Rightarrow> Inl e
      | Inr df \<Rightarrow>
          (let missing_columns = filter (\<lambda>col. col \<notin> set (columns df)) required_columns in
           if missing_columns \<noteq> [] then Inr None
           else
             (case coerce_amounts to_numeric (rows df) of
                None \<Rightarrow> Inr None
              | Some rs \<Rightarrow>
                  (let result_df = amount_by_customer rs in
                   if Arari \<in> set (columns df) then
                     (let rs' = coerce_profits to_numeric rs in
                      if \<not> dtype_object (map r_profit rs')
                      then Inr (Some \<lparr>has_profit = True, agg_rows = merge_profit rs' result_df\<rparr>)
                      else Inr (Some \<lparr>has_profit = False, agg_rows = result_df\<rparr>))
                   else Inr (Some \<lparr>has_profit = False, agg_rows = result_df\<rparr>)))))"

text \<open>\<^verbatim>\<open>except Exception as e: ... return None\<close>\<close>

definition process_excel_data ::
  "('f \<Rightarrow> error + data_frame) \<Rightarrow> (cell list \<Rightarrow> error + amount option list) \<Rightarrow> 'f \<Rightarrow> aggregate option" where
  "process_excel_data read_excel to_numeric file =
     (case process_excel_body read_excel to_numeric file of
        Inl e \<Rightarrow> None
      | Inr res \<Rightarrow> res)"

section \<open>Reconciliation: \<^verbatim>\<open>analyze_sales_data\<close>\<close>

text \<open>
  A row of the comparison table: the customer name, the sales amount of the prior and of
  the current year, the delta, the ratio, and the gross-profit columns (\<open>None\<close> when the
  table of that year has none). The ratio cell is a number or the sentinel string
  ("new / fully lost" in Japanese).
\<close>

record recon_row =
  c_name :: string
  prior_amount :: amount
  current_amount :: amount
  prior_profit :: "amount option"
  current_profit :: "amount option"
  delta_amount :: amount
  delta_ratio :: cell

text \<open>The UTF-8 bytes of the sentinel string of line 118.\<close>

definition sentinel :: string where
  "sentinel = map char_of
     [230, 150, 176, 232, 166, 143, 47, 229, 174, 140, 229, 133, 168, 230, 184, 155, 229, 176, 145 :: nat]"

text \<open>
  Line 102, \<^verbatim>\<open>pd.merge(last_year, this_year, on=name, how='outer', ...)\<close>: the keys of
  both tables, sorted; for each key the pairs of rows that carry it, or the rows of one
  side paired with nothing (NaN cells) when the other side has none.
\<close>

type_synonym merged_row = "string \<times> agg_row option \<times> agg_row option"

definition join_key :: "string \<Rightarrow> agg_row list \<Rightarrow> agg_row list \<Rightarrow> merged_row list" where
  "join_key k ls rs =
     (if rs = [] then map (\<lambda>a. (k, Some a, None)) ls
      else if ls = [] then map (\<lambda>b. (k, None, Some b)) rs
      else concat (map (\<lambda>a. map (\<lambda>b. (k, Some a, Some b)) rs) ls))"

definition merge_keys :: "agg_row list \<Rightarrow> agg_row list \<Rightarrow> string list" where
  "merge_keys l r = sort (remdups (map customer l @ map customer r))"

definition merge_outer :: "agg_row list \<Rightarrow> agg_row list \<Rightarrow> merged_row list" where
  "merge_outer l r =
     concat (map (\<lambda>k. join_key k (filter (\<lambda>a. customer a = k) l) (filter (\<lambda>b. customer b = k) r))
               (merge_keys l r))"

text \<open>Line 105, \<^verbatim>\<open>merged_df.fillna(0)\<close>, with the delta and the ratio still to come.\<close>

definition fill_amount :: "agg_row option \<Rightarrow> amount" where
  "fill_amount a = (case a of None \<Rightarrow> 0 | Some x \<Rightarrow> total_amount x)"

definition fill_profit :: "bool \<Rightarrow> agg_row option \<Rightarrow> amount option" where
  "fill_profit has a = (if has then Some (case a of None \<Rightarrow> 0 | Some x \<Rightarrow> total_profit x) else None)"

definition fillna :: "aggregate \<Rightarrow> aggregate \<Rightarrow> merged_row \<Rightarrow> recon_row" where
  "fillna last_year this_year m =
     (case m of (k, a, b) \<Rightarrow>
        \<lparr>c_name = k, prior_amount = fill_amount a, current_amount = fill_amount b,
         prior_profit = fill_profit (has_profit last_year) a,
         current_profit = fill_profit (has_profit this_year) b,
         delta_amount = 0, delta_ratio = NaN\<rparr>)"

text \<open>
  Lines 108-118: the delta, then the ratio where the prior amount is not 0 and infinity
  elsewhere, and infinity replaced by the sentinel string.
\<close>

definition add_delta :: "recon_row \<Rightarrow> recon_row" where
  "add_delta r = r\<lparr>delta_amount := current_amount r - prior_amount r\<rparr>"

definition add_ratio :: "recon_row \<Rightarrow> recon_row" where
  "add_ratio r =
     r\<lparr>delta_ratio :=
         (if prior_amount r \<noteq> 0 then Num (delta_amount r / prior_amount r * 100) else Str sentinel)\<rparr>"

text \<open>\<^verbatim>\<open>round(0)\<close> rounds to the nearest integer, a half to the even neighbour.\<close>

definition round_half_even :: "amount \<Rightarrow> int" where
  "round_half_even x =
     (let f = \<lfloor>x\<rfloor>; d = x - of_int f in
      if d < 1 / 2 then f else if 1 / 2 < d then f + 1 else if even f then f else f + 1)"

definition round0 :: "amount \<Rightarrow> amount" where
  "round0 x = of_int (round_half_even x)"

definition round_amounts :: "recon_row \<Rightarrow> recon_row" where
  "round_amounts r =
     r\<lparr>prior_amount := round0 (prior_amount r), current_amount := round0 (current_amount r),
       prior_profit := map_option round0 (prior_profit r),
       current_profit := map_option round0 (current_profit r),
       delta_amount := round0 (delta_amount r)\<rparr>"

fun round_cell :: "cell \<Rightarrow> cell" where
  "round_cell (Num x) = Num (round0 x)"
| "round_cell c = c"

definition round_ratio :: "recon_row \<Rightarrow> recon_row" where
  "round_ratio r = r\<lparr>delta_ratio := round_cell (delta_ratio r)\<rparr>"

text \<open>
  Lines 121-123: the loop runs over the columns of numeric dtype. The ratio column is one
  of them only when no cell of it is the sentinel; then the test
  \<^verbatim>\<open>col != ratio or not isinstance(merged_df[col].iloc[0], str)\<close> reads the first
  cell, which raises on a table with no row, and otherwise rounds the ratio as well.
\<close>

definition round_columns :: "recon_row list \<Rightarrow> error + recon_row list" where
  "round_columns rs =
     (if dtype_object (map delta_ratio rs) then Inr (map round_amounts rs)
      else if rs = [] then Inl IndexError
      else Inr (map (round_ratio \<circ> round_amounts) rs))"

text \<open>
  Line 126, \<^verbatim>\<open>sort_values(by=current, ascending=False)\<close>, with the default sort
  kind. For a descending sort pandas reverses the rows, asks numpy for the indices that
  sort the reversed column ascending (\<open>argsort\<close>, a parameter: the library's default
  algorithm), takes the rows at these indices and reverses the result.
\<close>

definition sort_values :: "(amount list \<Rightarrow> nat list) \<Rightarrow> recon_row list \<Rightarrow> recon_row list" where
  "sort_values argsort rs =
     rev (map (\<lambda>i. rev rs ! i) (argsort (map current_amount (rev rs))))"

text \<open>What numpy documents of \<open>argsort\<close>: a permutation of the indices that sorts the values.\<close>

definition argsort_spec :: "(amount list \<Rightarrow> nat list) \<Rightarrow> bool" where
  "argsort_spec argsort \<longleftrightarrow>
     (\<forall>xs. mset (argsort xs) = mset [0..<length xs] \<and> sorted (map (\<lambda>i. xs ! i) (argsort xs)))"

definition joined_rows :: "aggregate \<Rightarrow> aggregate \<Rightarrow> recon_row list" where
  "joined_rows last_year this_year =
     map (fillna last_year this_year) (merge_outer (agg_rows last_year) (agg_rows this_year))"

definition analyze_sales_data ::
  "(amount list \<Rightarrow> nat list) \<Rightarrow> aggregate \<Rightarrow> aggregate \<Rightarrow> error + recon_row list" where
  "analyze_sales_data argsort last_year this_year =
     (let merged_df = joined_rows last_year this_year;
          merged_df = map add_delta merged_df;
          merged_df = map add_ratio merged_df
      in case round_columns merged_df of
           Inl e \<Rightarrow> Inl e
         | Inr merged_df \<Rightarrow> Inr (sort_values argsort merged_df))"

section \<open>Filtering and summary of the comparison table\<close>

datatype change_option = ShowAll | IncreaseOnly | DecreaseOnly

text \<open>
  Lines 172-188. \<^verbatim>\<open>Series.str.contains(search_term, case=False, na=False)\<close> compiles the
  term as a regular expression (the default \<^verbatim>\<open>regex=True\<close>) with \<^verbatim>\<open>re.IGNORECASE\<close> and
  keeps the rows the compiled pattern finds a match in. The compilation is the library's;
  it is the parameter \<open>re_compile\<close>, which raises or returns the predicate
  \<^verbatim>\<open>pat.search(x) is not None\<close>.
\<close>

definition apply_filters ::
  "(string \<Rightarrow> error + (string \<Rightarrow> bool)) \<Rightarrow> int \<times> int \<Rightarrow> change_option \<Rightarrow> string \<Rightarrow>
     recon_row list \<Rightarrow> error + recon_row list" where
  "apply_filters re_compile selected_range selected_change search_term comparison_df =
     (let filtered_df = comparison_df;
          filtered_df = filter (\<lambda>r. of_int (fst selected_range) \<le> current_amount r \<and>
                                     current_amount r \<le> of_int (snd selected_range)) filtered_df;
          filtered_df =
            (case selected_change of
               IncreaseOnly \<Rightarrow> filter (\<lambda>r. 0 < delta_amount r) filtered_df
             | DecreaseOnly \<Rightarrow> filter (\<lambda>r. delta_amount r < 0) filtered_df
             | ShowAll \<Rightarrow> filtered_df)
      in if search_term \<noteq> [] then
           (case re_compile search_term of
              Inl e \<Rightarrow> Inl e
            | Inr found \<Rightarrow> Inr (filter (\<lambda>r. found (c_name r)) filtered_df))
         else Inr filtered_df)"

text \<open>
  What the library's search does on a pattern made of ordinary ASCII characters and dots,
  against ASCII text: a dot stands for any character but a newline, any other character
  for itself in either case.
\<close>

definition lower_ascii :: "char \<Rightarrow> char" where
  "lower_ascii c = (if CHR ''A'' \<le> c \<and> c \<le> CHR ''Z'' then char_of (of_char c + (32::nat)) else c)"

definition atom_match :: "char \<Rightarrow> char \<Rightarrow> bool" where
  "atom_match p c = (if p = CHR ''.'' then c \<noteq> CHR 0x0A else lower_ascii p = lower_ascii c)"

fun match_at :: "string \<Rightarrow> string \<Rightarrow> bool" where
  "match_at [] s = True"
| "match_at (p # ps) [] = False"
| "match_at (p # ps) (c # cs) = (atom_match p c \<and> match_at ps cs)"

fun dot_search :: "string \<Rightarrow> string \<Rightarrow> bool" where
  "dot_search pat [] = match_at pat []"
| "dot_search pat (c # cs) = (match_at pat (c # cs) \<or> dot_search pat cs)"

text \<open>
  The substring predicate in the specification's words: the customer name contains the
  term, letter case ignored.
\<close>

fun starts_with_ci :: "string \<Rightarrow> string \<Rightarrow> bool" where
  "starts_with_ci [] s = True"
| "starts_with_ci (p # ps) [] = False"
| "starts_with_ci (p # ps) (c # cs) = (lower_ascii p = lower_ascii c \<and> starts_with_ci ps cs)"

fun spec_contains_ci :: "string \<Rightarrow> string \<Rightarrow> bool" where
  "spec_contains_ci needle [] = starts_with_ci needle []"
| "spec_contains_ci needle (c # cs) = (starts_with_ci needle (c # cs) \<or> spec_contains_ci needle cs)"





text \<open>The ratio cell of a row before the rounding loop, from its two filled amounts.\<close>

definition computed_ratio :: "amount \<Rightarrow> amount \<Rightarrow> cell" where
  "computed_ratio p c = (if p \<noteq> 0 then Num ((c - p) / p * 100) else Str sentinel)"

text \<open>
  A sort that meets \<open>argsort_spec\<close>: insertion sort of the indices by their values, which is
  what numpy's default kind does on short arrays.
\<close>

definition insertion_argsort :: "amount list \<Rightarrow> nat list" where
  "insertion_argsort xs = sort_key (\<lambda>i. xs ! i) [0..<length xs]"

text \<open>The example of the specification: prior = {A: 100, B: 200}, current = {A: 150, C: 50}.\<close>

definition example_prior :: aggregate where
  "example_prior = \<lparr>has_profit = False, agg_rows =
     [\<lparr>customer = ''A'', total_amount = 100, total_profit = 0\<rparr>,
      \<lparr>customer = ''B'', total_amount = 200, total_profit = 0\<rparr>]\<rparr>"

definition example_current :: aggregate where
  "example_current = \<lparr>has_profit = False, agg_rows =
     [\<lparr>customer = ''A'', total_amount = 150, total_profit = 0\<rparr>,
      \<lparr>customer = ''C'', total_amount = 50, total_profit = 0\<rparr>]\<rparr>"









text \<open>
  The property of C1 in the specification's words: one row for every customer of either
  table, no other row, and 0 for the numeric fields of a side the customer is absent from.
\<close>

definition one_row_per_customer :: "aggregate \<Rightarrow> aggregate \<Rightarrow> recon_row list \<Rightarrow> bool" where
  "one_row_per_customer last_year this_year rs \<longleftrightarrow>
     distinct (map c_name rs)
     \<and> set (map c_name rs) = customer ` set (agg_rows last_year) \<union> customer ` set (agg_rows this_year)
     \<and> (\<forall>r\<in>set rs.
          (c_name r \<notin> customer ` set (agg_rows last_year) \<longrightarrow>
             prior_amount r = 0 \<and> prior_profit r = (if has_profit last_year then Some 0 else None))
        \<and> (c_name r \<notin> customer ` set (agg_rows this_year) \<longrightarrow>
             current_amount r = 0 \<and> current_profit r = (if has_profit this_year then Some 0 else None)))"



definition mixed_sheet :: data_frame where
  "mixed_sheet = \<lparr>columns = [Tokuisaki, Juchugaku], rows =
     [\<lparr>r_customer = Some ''A'', r_amount = Str ''10'', r_profit = NaN\<rparr>,
      \<lparr>r_customer = Some ''B'', r_amount = Str ''x'', r_profit = NaN\<rparr>,
      \<lparr>r_customer = Some ''A'', r_amount = NaN, r_profit = NaN\<rparr>,
      \<lparr>r_customer = Some ''A'', r_amount = Num 5, r_profit = NaN\<rparr>]\<rparr>"

definition parse_ten :: "string \<Rightarrow> amount option" where
  "parse_ten s = (if s = ''10'' then Some 10 else None)"

definition numeric_sheet :: data_frame where
  "numeric_sheet = \<lparr>columns = [Tokuisaki, Juchugaku], rows =
     [\<lparr>r_customer = Some ''A'', r_amount = Num 10, r_profit = NaN\<rparr>,
      \<lparr>r_customer = Some ''B'', r_amount = NaN, r_profit = NaN\<rparr>]\<rparr>"

definition profit_sheet :: data_frame where
  "profit_sheet = \<lparr>columns = [Tokuisaki, Juchugaku, Arari], rows =
     [\<lparr>r_customer = Some ''A'', r_amount = Num 10, r_profit = Str ''x''\<rparr>,
      \<lparr>r_customer = Some ''A'', r_amount = Num 5, r_profit = Num 2\<rparr>]\<rparr>"

definition abc_row :: recon_row where
  "abc_row = \<lparr>c_name = ''ABC'', prior_amount = 1, current_amount = 2, prior_profit = None,
              current_profit = None, delta_amount = 1, delta_ratio = Num 100\<rparr>"

section \<open>Properties of the join\<close>

lemma set_merge_keys: "set (merge_keys l r) = customer ` set l \<union> customer ` set r"
  by (simp add: merge_keys_def)

lemma distinct_merge_keys: "distinct (merge_keys l r)"
  by (simp add: merge_keys_def)

lemma filter_key_empty: "(filter (\<lambda>a. customer a = k) l = []) \<longleftrightarrow> k \<notin> customer ` set l"
  by (auto simp: filter_empty_conv)

lemma filter_key_distinct:
  "distinct (map customer l) \<Longrightarrow> length (filter (\<lambda>a. customer a = k) l) \<le> 1"
proof (induction l)
  case Nil
  then show ?case by simp
next
  case (Cons x xs)
  show ?case
  proof (cases "customer x = k")
    case True
    with Cons.prems have "k \<notin> customer ` set xs" by auto
    then have "filter (\<lambda>a. customer a = k) xs = []" by (auto simp: filter_empty_conv)
    with True show ?thesis by simp
  next
    case False
    with Cons show ?thesis by simp
  qed
qed


lemma join_key_fst:
  assumes "length ls \<le> 1" "length rs \<le> 1" "ls \<noteq> [] \<or> rs \<noteq> []"
  shows "map fst (join_key k ls rs) = [k]"
proof -
  from assms(1) have l: "ls = [] \<or> (\<exists>a. ls = [a])"
    by (cases ls) auto
  from assms(2) have r: "rs = [] \<or> (\<exists>b. rs = [b])"
    by (cases rs) auto
  from l r assms(3) show ?thesis
    by (auto simp: join_key_def)
qed

lemma map_fst_merge_outer:
  assumes "distinct (map customer l)" "distinct (map customer r)"
  shows "map fst (merge_outer l r) = merge_keys l r"
proof -
  let ?g = "\<lambda>k. join_key k (filter (\<lambda>a. customer a = k) l) (filter (\<lambda>b. customer b = k) r)"
  have one: "map fst (?g k) = [k]" if "k \<in> set (merge_keys l r)" for k
  proof (rule join_key_fst)
    show "length (filter (\<lambda>a. customer a = k) l) \<le> 1" using assms(1) by (rule filter_key_distinct)
    show "length (filter (\<lambda>a. customer a = k) r) \<le> 1" using assms(2) by (rule filter_key_distinct)
    show "filter (\<lambda>a. customer a = k) l \<noteq> [] \<or> filter (\<lambda>a. customer a = k) r \<noteq> []"
      using that unfolding set_merge_keys filter_key_empty by blast
  qed
  have "concat (map (\<lambda>k. map fst (?g k)) ks) = ks" if "set ks \<subseteq> set (merge_keys l r)" for ks
    using that by (induction ks) (simp_all add: one)
  then have "concat (map (\<lambda>k. map fst (?g k)) (merge_keys l r)) = merge_keys l r"
    by simp
  then show ?thesis
    by (simp add: merge_outer_def map_concat comp_def)
qed

lemma join_key_sides:
  assumes "(k, a, b) \<in> set (join_key k' ls rs)"
  shows "k = k' \<and> (ls = [] \<longrightarrow> a = None) \<and> (rs = [] \<longrightarrow> b = None)
       \<and> (\<forall>x. a = Some x \<longrightarrow> x \<in> set ls) \<and> (\<forall>y. b = Some y \<longrightarrow> y \<in> set rs)"
proof (cases "rs = []")
  case True
  with assms show ?thesis by (auto simp: join_key_def)
next
  case r: False
  show ?thesis
  proof (cases "ls = []")
    case True
    with r assms show ?thesis by (auto simp: join_key_def)
  next
    case False
    with r assms show ?thesis by (auto simp: join_key_def)
  qed
qed


lemma merge_outer_sides:
  assumes "(k, a, b) \<in> set (merge_outer l r)"
  shows "(k \<notin> customer ` set l \<longrightarrow> a = None) \<and> (k \<notin> customer ` set r \<longrightarrow> b = None)
       \<and> (\<forall>x. a = Some x \<longrightarrow> x \<in> set l \<and> customer x = k)
       \<and> (\<forall>y. b = Some y \<longrightarrow> y \<in> set r \<and> customer y = k)"
proof -
  from assms have "\<exists>k'. (k, a, b) \<in> set (join_key k' (filter (\<lambda>a. customer a = k') l) (filter (\<lambda>b. customer b = k') r))"
    unfolding merge_outer_def set_concat set_map by blast
  then obtain k' where
    m: "(k, a, b) \<in> set (join_key k' (filter (\<lambda>a. customer a = k') l) (filter (\<lambda>b. customer b = k') r))" ..
  note j = join_key_sides [OF m]
  from j have k: "k = k'" by (rule conjunct1)
  from j have 1: "filter (\<lambda>a. customer a = k) l = [] \<longrightarrow> a = None"
    unfolding k by blast
  from j have 2: "filter (\<lambda>a. customer a = k) r = [] \<longrightarrow> b = None"
    unfolding k by blast
  from j have 3: "\<forall>x. a = Some x \<longrightarrow> x \<in> set (filter (\<lambda>a. customer a = k) l)"
    unfolding k by blast
  from j have 4: "\<forall>y. b = Some y \<longrightarrow> y \<in> set (filter (\<lambda>a. customer a = k) r)"
    unfolding k by blast
  have e: "filter (\<lambda>a. customer a = k) t = []" if "k \<notin> customer ` set t" for t :: "agg_row list"
    using that by (auto simp: filter_empty_conv)
  from 1 e have "k \<notin> customer ` set l \<longrightarrow> a = None" by blast
  moreover from 2 e have "k \<notin> customer ` set r \<longrightarrow> b = None" by blast
  moreover from 3 have "\<forall>x. a = Some x \<longrightarrow> x \<in> set l \<and> customer x = k" by simp
  moreover from 4 have "\<forall>y. b = Some y \<longrightarrow> y \<in> set r \<and> customer y = k" by simp
  ultimately show ?thesis by blast
qed

section \<open>Properties of the sort\<close>

lemma mset_sort_values:
  assumes "argsort_spec argsort"
  shows "mset (sort_values argsort rs) = mset rs"
proof -
  let ?xs = "map current_amount (rev rs)"
  from assms have "mset (argsort ?xs) = mset [0..<length ?xs]"
    unfolding argsort_spec_def by blast
  then have "mset (argsort ?xs) = mset [0..<length (rev rs)]"
    by (simp only: length_map)
  then have "mset (map (\<lambda>i. rev rs ! i) (argsort ?xs)) = mset (map (\<lambda>i. rev rs ! i) [0..<length (rev rs)])"
    by (simp only: mset_map)
  also have "\<dots> = mset (rev rs)"
    by (simp only: map_nth)
  finally show ?thesis
    by (simp add: sort_values_def)
qed


section \<open>Rows of the comparison table\<close>

lemma round0_zero: "round0 0 = 0"
  by (simp add: round0_def round_half_even_def)

lemma c_name_fillna: "c_name (fillna p c m) = fst m"
  by (cases m) (simp add: fillna_def)

lemma names_joined_rows: "map c_name (joined_rows p c) = map fst (merge_outer (agg_rows p) (agg_rows c))"
  by (simp add: joined_rows_def c_name_fillna)

lemma round_columns_cases:
  assumes "round_columns rs = Inr rs'"
  shows "rs' = map round_amounts rs \<or> (rs' = map (round_ratio \<circ> round_amounts) rs \<and> \<not> dtype_object (map delta_ratio rs))"
  using assms by (simp add: round_columns_def split: if_splits)

lemma round_columns_ok:
  assumes "rs \<noteq> []"
  shows "\<exists>rs'. round_columns rs = Inr rs'"
  using assms by (simp add: round_columns_def)

lemma round_columns_empty: "round_columns [] = Inl IndexError"
  by (simp add: round_columns_def dtype_object_def)

lemma analyze_sales_data_Inr:
  assumes "analyze_sales_data argsort p c = Inr out"
  shows "\<exists>rs'. round_columns (map add_ratio (map add_delta (joined_rows p c))) = Inr rs'
           \<and> out = sort_values argsort rs'"
  using assms by (simp add: analyze_sales_data_def Let_def split: sum.splits)

lemma c_name_steps:
  "c_name (add_delta r) = c_name r" "c_name (add_ratio r) = c_name r"
  "c_name (round_amounts r) = c_name r" "c_name (round_ratio r) = c_name r"
  by (simp_all add: add_delta_def add_ratio_def round_amounts_def round_ratio_def)

lemma names_round_columns:
  assumes "round_columns rs = Inr rs'"
  shows "map c_name rs' = map c_name rs"
  using round_columns_cases [OF assms] by (auto simp: c_name_steps)

lemma names_analyze:
  assumes "argsort_spec argsort" "analyze_sales_data argsort p c = Inr out"
  shows "mset (map c_name out) = mset (map fst (merge_outer (agg_rows p) (agg_rows c)))"
proof -
  from analyze_sales_data_Inr [OF assms(2)] obtain rs' where
    r: "round_columns (map add_ratio (map add_delta (joined_rows p c))) = Inr rs'"
    and o: "out = sort_values argsort rs'" by blast
  have "mset (map c_name out) = image_mset c_name (mset out)" by simp
  also have "\<dots> = image_mset c_name (mset rs')"
    unfolding o by (simp only: mset_sort_values [OF assms(1)])
  also have "\<dots> = mset (map c_name rs')" by simp
  also have "map c_name rs' = map c_name (joined_rows p c)"
    using names_round_columns [OF r] by (simp add: c_name_steps comp_def)
  finally show ?thesis by (simp only: names_joined_rows)
qed

lemma computed_row:
  "add_ratio (add_delta (fillna p c (k, a, b))) =
     \<lparr>c_name = k, prior_amount = fill_amount a, current_amount = fill_amount b,
      prior_profit = fill_profit (has_profit p) a, current_profit = fill_profit (has_profit c) b,
      delta_amount = fill_amount b - fill_amount a,
      delta_ratio = computed_ratio (fill_amount a) (fill_amount b)\<rparr>"
  by (simp add: add_ratio_def add_delta_def fillna_def computed_ratio_def)

lemma analyze_row:
  assumes "argsort_spec argsort" "analyze_sales_data argsort p c = Inr out" "r \<in> set out"
  shows "\<exists>k a b. (k, a, b) \<in> set (merge_outer (agg_rows p) (agg_rows c))
     \<and> c_name r = k
     \<and> prior_amount r = round0 (fill_amount a)
     \<and> current_amount r = round0 (fill_amount b)
     \<and> prior_profit r = map_option round0 (fill_profit (has_profit p) a)
     \<and> current_profit r = map_option round0 (fill_profit (has_profit c) b)
     \<and> delta_amount r = round0 (fill_amount b - fill_amount a)
     \<and> (delta_ratio r = computed_ratio (fill_amount a) (fill_amount b)
        \<or> delta_ratio r = round_cell (computed_ratio (fill_amount a) (fill_amount b)))"
proof -
  let ?rs = "map add_ratio (map add_delta (joined_rows p c))"
  from analyze_sales_data_Inr [OF assms(2)] obtain rs' where
    rc: "round_columns ?rs = Inr rs'" and o: "out = sort_values argsort rs'" by blast
  from assms(3) have "r \<in># mset out" by simp
  then have "r \<in># mset rs'"
    unfolding o by (simp only: mset_sort_values [OF assms(1)])
  then have m: "r \<in> set rs'" by simp
  from round_columns_cases [OF rc]
  have "r \<in> round_amounts ` set ?rs \<or> r \<in> (round_ratio \<circ> round_amounts) ` set ?rs"
    using m by auto
  then obtain r0 where r0: "r0 \<in> set ?rs" and r: "r = round_amounts r0 \<or> r = round_ratio (round_amounts r0)"
    by auto
  from r0 obtain m where mm: "m \<in> set (merge_outer (agg_rows p) (agg_rows c))"
    and e: "r0 = add_ratio (add_delta (fillna p c m))"
    by (auto simp: joined_rows_def)
  obtain k a b where kab: "m = (k, a, b)" by (cases m)
  from e have r0': "r0 = \<lparr>c_name = k, prior_amount = fill_amount a, current_amount = fill_amount b,
      prior_profit = fill_profit (has_profit p) a, current_profit = fill_profit (has_profit c) b,
      delta_amount = fill_amount b - fill_amount a,
      delta_ratio = computed_ratio (fill_amount a) (fill_amount b)\<rparr>"
    unfolding kab by (simp only: computed_row)
  from r show ?thesis
  proof
    assume "r = round_amounts r0"
    then show ?thesis unfolding r0' using mm kab
      by (intro exI [of _ k] exI [of _ a] exI [of _ b]) (simp add: round_amounts_def)
  next
    assume "r = round_ratio (round_amounts r0)"
    then show ?thesis unfolding r0' using mm kab
      by (intro exI [of _ k] exI [of _ a] exI [of _ b]) (simp add: round_amounts_def round_ratio_def)
  qed
qed

lemma argsort_spec_insertion: "argsort_spec insertion_argsort"
  by (simp add: argsort_spec_def insertion_argsort_def)

lemma analyze_nonempty:
  assumes "agg_rows p \<noteq> [] \<or> agg_rows c \<noteq> []"
    "distinct (map customer (agg_rows p))" "distinct (map customer (agg_rows c))"
  shows "\<exists>out. analyze_sales_data argsort p c = Inr out"
proof -
  have "map fst (merge_outer (agg_rows p) (agg_rows c)) = merge_keys (agg_rows p) (agg_rows c)"
    using assms(2,3) by (rule map_fst_merge_outer)
  moreover have "set (merge_keys (agg_rows p) (agg_rows c)) \<noteq> {}"
    unfolding set_merge_keys using assms(1) by auto
  ultimately have "merge_outer (agg_rows p) (agg_rows c) \<noteq> []"
    by auto
  then have "map add_ratio (map add_delta (joined_rows p c)) \<noteq> []"
    by (simp add: joined_rows_def)
  from round_columns_ok [OF this] show ?thesis
    by (auto simp: analyze_sales_data_def Let_def)
qed

lemma example_eval: "analyze_sales_data insertion_argsort example_prior example_current =
  Inr [\<lparr>c_name = ''A'', prior_amount = 100, current_amount = 150, prior_profit = None, current_profit = None, delta_amount = 50, delta_ratio = Num 50\<rparr>,
       \<lparr>c_name = ''C'', prior_amount = 0, current_amount = 50, prior_profit = None, current_profit = None, delta_amount = 50, delta_ratio = Str sentinel\<rparr>,
       \<lparr>c_name = ''B'', prior_amount = 200, current_amount = 0, prior_profit = None, current_profit = None, delta_amount = - 200, delta_ratio = Num (- 100)\<rparr>]"
  by code_simp

lemma analyze_both_empty:
  assumes "agg_rows p = []" "agg_rows c = []"
  shows "analyze_sales_data argsort p c = Inl IndexError"
  using assms
  by (simp add: analyze_sales_data_def joined_rows_def merge_outer_def merge_keys_def round_columns_empty)

lemma joined_one_row_per_customer:
  assumes "distinct (map customer (agg_rows p))" "distinct (map customer (agg_rows c))"
  shows "one_row_per_customer p c (joined_rows p c)"
proof -
  have names: "map c_name (joined_rows p c) = merge_keys (agg_rows p) (agg_rows c)"
    using map_fst_merge_outer [OF assms] by (simp only: names_joined_rows)
  have d: "distinct (map c_name (joined_rows p c))"
    unfolding names by (rule distinct_merge_keys)
  have s: "set (map c_name (joined_rows p c)) = customer ` set (agg_rows p) \<union> customer ` set (agg_rows c)"
    unfolding names by (rule set_merge_keys)
  have f: "(c_name r \<notin> customer ` set (agg_rows p) \<longrightarrow>
             prior_amount r = 0 \<and> prior_profit r = (if has_profit p then Some 0 else None))
        \<and> (c_name r \<notin> customer ` set (agg_rows c) \<longrightarrow>
             current_amount r = 0 \<and> current_profit r = (if has_profit c then Some 0 else None))"
    if "r \<in> set (joined_rows p c)" for r
  proof -
    from that obtain m where m: "m \<in> set (merge_outer (agg_rows p) (agg_rows c))"
      and r: "r = fillna p c m"
      by (auto simp: joined_rows_def)
    obtain k a b where kab: "m = (k, a, b)" by (cases m)
    from merge_outer_sides [OF m [unfolded kab]]
    have a: "k \<notin> customer ` set (agg_rows p) \<longrightarrow> a = None"
      and b: "k \<notin> customer ` set (agg_rows c) \<longrightarrow> b = None"
      by blast+
    show ?thesis
      using a b unfolding r kab
      by (simp add: fillna_def fill_amount_def fill_profit_def)
  qed
  from d s f show ?thesis
    unfolding one_row_per_customer_def by blast
qed

lemma output_one_row_per_customer:
  assumes "argsort_spec argsort"
    and "distinct (map customer (agg_rows last_year))"
    and "distinct (map customer (agg_rows this_year))"
    and out: "analyze_sales_data argsort last_year this_year = Inr out"
  shows "one_row_per_customer last_year this_year out"
proof -
  have names: "mset (map c_name out) = mset (merge_keys (agg_rows last_year) (agg_rows this_year))"
    using names_analyze [OF assms(1) out] map_fst_merge_outer [OF assms(2,3)] by simp
  have d: "distinct (map c_name out)"
    using mset_eq_imp_distinct_iff [OF names] distinct_merge_keys by blast
  have s: "set (map c_name out) = customer ` set (agg_rows last_year) \<union> customer ` set (agg_rows this_year)"
    using mset_eq_setD [OF names] by (simp only: set_merge_keys)
  have f: "(c_name r \<notin> customer ` set (agg_rows last_year) \<longrightarrow>
             prior_amount r = 0 \<and> prior_profit r = (if has_profit last_year then Some 0 else None))
        \<and> (c_name r \<notin> customer ` set (agg_rows this_year) \<longrightarrow>
             current_amount r = 0 \<and> current_profit r = (if has_profit this_year then Some 0 else None))"
    if "r \<in> set out" for r
  proof -
    from analyze_row [OF assms(1) out that] obtain k a b where
      m: "(k, a, b) \<in> set (merge_outer (agg_rows last_year) (agg_rows this_year))"
      and k: "c_name r = k"
      and pa: "prior_amount r = round0 (fill_amount a)"
      and ca: "current_amount r = round0 (fill_amount b)"
      and pp: "prior_profit r = map_option round0 (fill_profit (has_profit last_year) a)"
      and cp: "current_profit r = map_option round0 (fill_profit (has_profit this_year) b)"
      by blast
    from merge_outer_sides [OF m]
    have a: "k \<notin> customer ` set (agg_rows last_year) \<longrightarrow> a = None"
      and b: "k \<notin> customer ` set (agg_rows this_year) \<longrightarrow> b = None"
      by blast+
    show ?thesis
      using a b unfolding k pa ca pp cp
      by (simp add: fill_amount_def fill_profit_def round0_zero)
  qed
  from d s f show ?thesis
    unfolding one_row_per_customer_def by blast
qed

text \<open>
  C1. For two per-customer tables with unique customers, the outer join filled with 0
  (lines 102-105) has exactly one row for every customer of either input and no other
  row, and in the row of a customer absent from one side the amount of that side is 0, and
  so is its gross profit when that side has a gross-profit column. The same holds of every
  table \<^verbatim>\<open>analyze_sales_data\<close> returns, and it returns one unless both inputs are empty.
\<close>

theorem outer_join_completeness:
  assumes "distinct (map customer (agg_rows last_year))"
    and "distinct (map customer (agg_rows this_year))"
  shows "one_row_per_customer last_year this_year (joined_rows last_year this_year)
     \<and> (argsort_spec argsort \<longrightarrow>
          (\<forall>out. analyze_sales_data argsort last_year this_year = Inr out \<longrightarrow>
             one_row_per_customer last_year this_year out))
     \<and> (agg_rows last_year \<noteq> [] \<or> agg_rows this_year \<noteq> [] \<longrightarrow>
          (\<exists>out. analyze_sales_data argsort last_year this_year = Inr out))"
  using joined_one_row_per_customer [OF assms] output_one_row_per_customer [OF _ assms]
    analyze_nonempty [OF _ assms]
  by blast

theorem outer_join_completeness_witness:
  "distinct (map customer (agg_rows example_prior))
   \<and> distinct (map customer (agg_rows example_current))
   \<and> argsort_spec insertion_argsort
   \<and> agg_rows example_prior \<noteq> []
   \<and> analyze_sales_data insertion_argsort example_prior example_current =
      Inr [\<lparr>c_name = ''A'', prior_amount = 100, current_amount = 150, prior_profit = None,
             current_profit = None, delta_amount = 50, delta_ratio = Num 50\<rparr>,
           \<lparr>c_name = ''C'', prior_amount = 0, current_amount = 50, prior_profit = None,
             current_profit = None, delta_amount = 50, delta_ratio = Str sentinel\<rparr>,
           \<lparr>c_name = ''B'', prior_amount = 200, current_amount = 0, prior_profit = None,
             current_profit = None, delta_amount = - 200, delta_ratio = Num (- 100)\<rparr>]
   \<and> one_row_per_customer example_prior example_current
        [\<lparr>c_name = ''A'', prior_amount = 100, current_amount = 150, prior_profit = None,
             current_profit = None, delta_amount = 50, delta_ratio = Num 50\<rparr>,
           \<lparr>c_name = ''C'', prior_amount = 0, current_amount = 50, prior_profit = None,
             current_profit = None, delta_amount = 50, delta_ratio = Str sentinel\<rparr>,
           \<lparr>c_name = ''B'', prior_amount = 200, current_amount = 0, prior_profit = None,
             current_profit = None, delta_amount = - 200, delta_ratio = Num (- 100)\<rparr>]
   \<and> one_row_per_customer example_prior example_current (joined_rows example_prior example_current)"
proof -
  have 1: "distinct (map customer (agg_rows example_prior))"
    by (simp add: example_prior_def)
  have 2: "distinct (map customer (agg_rows example_current))"
    by (simp add: example_current_def)
  have 3: "agg_rows example_prior \<noteq> []"
    by (simp add: example_prior_def)
  from outer_join_completeness [OF 1 2, of insertion_argsort] 1 2 3 argsort_spec_insertion example_eval
  show ?thesis by simp
qed

section \<open>Delta, ratio and rounding\<close>

















section \<open>Order of the comparison table\<close>




section \<open>Ingestion\<close>

lemma set_amounts_map:
  "set_amounts rs (map f (map r_amount rs)) = map (\<lambda>r. r\<lparr>r_amount := of_numeric (f (r_amount r))\<rparr>) rs"
  by (induction rs) (simp_all add: set_amounts_def)

lemma dropna_set_amounts:
  "dropna_amount (set_amounts rs (map f (map r_amount rs))) =
     List.map_filter (\<lambda>r. map_option (\<lambda>x. r\<lparr>r_amount := Num x\<rparr>) (f (r_amount r))) rs"
proof (induction rs)
  case Nil
  show ?case by (simp add: set_amounts_def dropna_amount_def map_filter_simps)
next
  case (Cons r rs)
  from Cons show ?case
    unfolding set_amounts_map
    by (cases "f (r_amount r)") (simp_all add: dropna_amount_def map_filter_simps)
qed

lemma map_filter_numeric:
  assumes "r \<in> set (List.map_filter (\<lambda>r. map_option (\<lambda>x. r\<lparr>r_amount := Num x\<rparr>) (f (r_amount r))) rs)"
  shows "\<exists>x. r_amount r = Num x"
  using assms by (auto simp: map_filter_def)

lemma coerce_amounts_pd:
  "coerce_amounts (pd_to_numeric parse) rs =
     Some (if dtype_object (map r_amount rs)
           then List.map_filter (\<lambda>r. map_option (\<lambda>x. r\<lparr>r_amount := Num x\<rparr>) (coerce parse (r_amount r))) rs
           else rs)"
  by (simp add: coerce_amounts_def pd_to_numeric_def dropna_set_amounts del: map_map)

lemma required_present:
  "filter (\<lambda>col. col \<notin> set cs) required_columns = [] \<longleftrightarrow> Tokuisaki \<in> set cs \<and> Juchugaku \<in> set cs"
  by (simp add: required_columns_def)

lemma process_excel_data_table:
  assumes "read_excel file = Inr df" "Tokuisaki \<in> set (columns df)" "Juchugaku \<in> set (columns df)"
    and "coerce_amounts to_numeric (rows df) = Some rs"
  shows "process_excel_data read_excel to_numeric file =
     Some (if Arari \<in> set (columns df) \<and> \<not> dtype_object (map r_profit (coerce_profits to_numeric rs))
           then \<lparr>has_profit = True, agg_rows = merge_profit (coerce_profits to_numeric rs) (amount_by_customer rs)\<rparr>
           else \<lparr>has_profit = False, agg_rows = amount_by_customer rs\<rparr>)"
  using assms
  by (simp add: process_excel_data_def process_excel_body_def required_present Let_def)

lemma coerce_amounts_None:
  "coerce_amounts to_numeric rs = None \<longleftrightarrow>
     dtype_object (map r_amount rs) \<and> (\<exists>e. to_numeric (map r_amount rs) = Inl e)"
  by (auto simp: coerce_amounts_def split: sum.splits)

text \<open>
  C10. \<^verbatim>\<open>process_excel_data\<close> returns a table or \<^verbatim>\<open>None\<close> on every input: an exception
  raised inside its \<^verbatim>\<open>try\<close> (a failed read of the file among them) yields \<^verbatim>\<open>None\<close>. It
  returns \<^verbatim>\<open>None\<close> exactly when the read fails, a required column is absent, or the
  conversion of an order-amount column of dtype \<^verbatim>\<open>object\<close> raises.
\<close>

theorem no_exception_escapes:
  "(\<forall>e. process_excel_body read_excel to_numeric file = Inl e \<longrightarrow>
        process_excel_data read_excel to_numeric file = None)
   \<and> (process_excel_data read_excel to_numeric file = None \<longleftrightarrow>
        (\<exists>e. read_excel file = Inl e)
      \<or> (\<exists>df. read_excel file = Inr df
            \<and> (Tokuisaki \<notin> set (columns df) \<or> Juchugaku \<notin> set (columns df)
               \<or> (dtype_object (map r_amount (rows df))
                  \<and> (\<exists>e. to_numeric (map r_amount (rows df)) = Inl e)))))"
proof -
  have a: "\<forall>e. process_excel_body read_excel to_numeric file = Inl e \<longrightarrow>
        process_excel_data read_excel to_numeric file = None"
    by (simp add: process_excel_data_def)
  have b: "process_excel_data read_excel to_numeric file = None \<longleftrightarrow>
        (\<exists>e. read_excel file = Inl e)
      \<or> (\<exists>df. read_excel file = Inr df
            \<and> (Tokuisaki \<notin> set (columns df) \<or> Juchugaku \<notin> set (columns df)
               \<or> (dtype_object (map r_amount (rows df))
                  \<and> (\<exists>e. to_numeric (map r_amount (rows df)) = Inl e))))"
  proof (cases "read_excel file")
    case (Inl e)
    then show ?thesis
      by (simp add: process_excel_data_def process_excel_body_def)
  next
    case (Inr df)
    show ?thesis
    proof (cases "Tokuisaki \<in> set (columns df) \<and> Juchugaku \<in> set (columns df)")
      case False
      with Inr show ?thesis
        by (auto simp: process_excel_data_def process_excel_body_def required_present Let_def)
    next
      case True
      show ?thesis
      proof (cases "coerce_amounts to_numeric (rows df)")
        case None
        with Inr True show ?thesis
          using coerce_amounts_None [of to_numeric "rows df"]
          by (simp add: process_excel_data_def process_excel_body_def required_present Let_def)
      next
        case (Some rs)
        with coerce_amounts_None [of to_numeric "rows df"]
        have n: "\<not> (dtype_object (map r_amount (rows df)) \<and> (\<exists>e. to_numeric (map r_amount (rows df)) = Inl e))"
          by simp
        from Inr True Some have "process_excel_data read_excel to_numeric file \<noteq> None"
          by (simp add: process_excel_data_table)
        with Inr True n show ?thesis by auto
      qed
    qed
  qed
  from a b show ?thesis by (rule conjI)
qed

theorem no_exception_escapes_witness:
  "process_excel_body (\<lambda>f :: unit. Inl ReadError) (\<lambda>cs. Inl ConvertError) () = Inl ReadError
   \<and> process_excel_data (\<lambda>f :: unit. Inl ReadError) (\<lambda>cs. Inl ConvertError) () = None"
proof -
  have "process_excel_body (\<lambda>f :: unit. Inl ReadError) (\<lambda>cs. Inl ConvertError) () = Inl ReadError"
    by (simp add: process_excel_body_def)
  with no_exception_escapes [of "\<lambda>f :: unit. Inl ReadError" "\<lambda>cs. Inl ConvertError" "()"]
  show ?thesis by blast
qed


lemma names_amounts_merge_profit:
  "map (\<lambda>a. (customer a, total_amount a)) (merge_profit rs' t) = map (\<lambda>a. (customer a, total_amount a)) t"
  by (simp add: merge_profit_def)

text \<open>
  C6, as amended. For a sheet that is read and has both required columns, ingestion
  returns a table. When the order-amount column has dtype \<^verbatim>\<open>object\<close>, the rows kept for
  the aggregation are exactly those whose cell converts to a number, each with that number
  as its amount; when the column is numeric already, every row is kept, a missing amount
  included. The amounts of the table are the sums over the kept rows.
\<close>

theorem amount_coercion:
  assumes "read_excel file = Inr df"
    and "Tokuisaki \<in> set (columns df)" and "Juchugaku \<in> set (columns df)"
  shows "\<exists>rs t. coerce_amounts (pd_to_numeric parse) (rows df) = Some rs
     \<and> (if dtype_object (map r_amount (rows df))
         then rs = List.map_filter
                (\<lambda>r. map_option (\<lambda>x. r\<lparr>r_amount := Num x\<rparr>) (coerce parse (r_amount r))) (rows df)
              \<and> (\<forall>r\<in>set rs. \<exists>x. r_amount r = Num x)
         else rs = rows df)
     \<and> process_excel_data read_excel (pd_to_numeric parse) file = Some t
     \<and> map (\<lambda>a. (customer a, total_amount a)) (agg_rows t) =
         map (\<lambda>k. (k, groupby_sum r_amount rs k)) (group_keys rs)"
proof -
  let ?kept = "List.map_filter
     (\<lambda>r. map_option (\<lambda>x. r\<lparr>r_amount := Num x\<rparr>) (coerce parse (r_amount r))) (rows df)"
  let ?rs = "if dtype_object (map r_amount (rows df)) then ?kept else rows df"
  have c: "coerce_amounts (pd_to_numeric parse) (rows df) = Some ?rs"
    by (rule coerce_amounts_pd)
  have n: "\<forall>r\<in>set ?kept. \<exists>x. r_amount r = Num x"
    using map_filter_numeric by blast
  let ?t = "if Arari \<in> set (columns df) \<and> \<not> dtype_object (map r_profit (coerce_profits (pd_to_numeric parse) ?rs))
           then \<lparr>has_profit = True, agg_rows = merge_profit (coerce_profits (pd_to_numeric parse) ?rs) (amount_by_customer ?rs)\<rparr>
           else \<lparr>has_profit = False, agg_rows = amount_by_customer ?rs\<rparr>"
  have p: "process_excel_data read_excel (pd_to_numeric parse) file = Some ?t"
    using assms c by (rule process_excel_data_table)
  have m: "map (\<lambda>a. (customer a, total_amount a)) (agg_rows ?t) =
         map (\<lambda>k. (k, groupby_sum r_amount ?rs k)) (group_keys ?rs)"
    by (simp add: names_amounts_merge_profit) (simp add: amount_by_customer_def comp_def)
  have i: "if dtype_object (map r_amount (rows df))
         then ?rs = ?kept \<and> (\<forall>r\<in>set ?rs. \<exists>x. r_amount r = Num x)
         else ?rs = rows df"
    using n by simp
  from c i p m show ?thesis by blast
qed

theorem amount_coercion_witness:
  "dtype_object (map r_amount (rows mixed_sheet))
   \<and> process_excel_data (\<lambda>f :: unit. Inr mixed_sheet) (pd_to_numeric parse_ten) () =
       Some \<lparr>has_profit = False, agg_rows = [\<lparr>customer = ''A'', total_amount = 15, total_profit = 0\<rparr>]\<rparr>
   \<and> (\<exists>rs. coerce_amounts (pd_to_numeric parse_ten) (rows mixed_sheet) = Some rs
        \<and> rs = [\<lparr>r_customer = Some ''A'', r_amount = Num 10, r_profit = NaN\<rparr>,
                 \<lparr>r_customer = Some ''A'', r_amount = Num 5, r_profit = NaN\<rparr>]
        \<and> [(''A'', 15 :: amount)] = map (\<lambda>k. (k, groupby_sum r_amount rs k)) (group_keys rs))"
proof -
  have o: "dtype_object (map r_amount (rows mixed_sheet))"
    by (simp add: mixed_sheet_def dtype_object_def)
  have k: "List.map_filter
        (\<lambda>r. map_option (\<lambda>x. r\<lparr>r_amount := Num x\<rparr>) (coerce parse_ten (r_amount r))) (rows mixed_sheet)
      = [\<lparr>r_customer = Some ''A'', r_amount = Num 10, r_profit = NaN\<rparr>,
         \<lparr>r_customer = Some ''A'', r_amount = Num 5, r_profit = NaN\<rparr>]"
    by (simp add: mixed_sheet_def map_filter_simps parse_ten_def)
  have e: "process_excel_data (\<lambda>f :: unit. Inr mixed_sheet) (pd_to_numeric parse_ten) () =
       Some \<lparr>has_profit = False, agg_rows = [\<lparr>customer = ''A'', total_amount = 15, total_profit = 0\<rparr>]\<rparr>"
    by code_simp
  have "(\<lambda>f :: unit. Inr mixed_sheet) () = Inr mixed_sheet"
    and "Tokuisaki \<in> set (columns mixed_sheet)" and "Juchugaku \<in> set (columns mixed_sheet)"
    by (simp_all add: mixed_sheet_def)
  from amount_coercion [of "\<lambda>f :: unit. Inr mixed_sheet" "()", OF this, of parse_ten]
  obtain rs t where "coerce_amounts (pd_to_numeric parse_ten) (rows mixed_sheet) = Some rs"
    and "rs = [\<lparr>r_customer = Some ''A'', r_amount = Num 10, r_profit = NaN\<rparr>,
                 \<lparr>r_customer = Some ''A'', r_amount = Num 5, r_profit = NaN\<rparr>]"
    and "process_excel_data (\<lambda>f :: unit. Inr mixed_sheet) (pd_to_numeric parse_ten) () = Some t"
    and "map (\<lambda>a. (customer a, total_amount a)) (agg_rows t) =
         map (\<lambda>k. (k, groupby_sum r_amount rs k)) (group_keys rs)"
    unfolding k using o by auto
  with e o show ?thesis by auto
qed

text \<open>
  C6 as stated fails: in a numeric order-amount column with an empty cell, the row of the
  empty cell is kept, and its customer B is in the table with a sum of 0.
\<close>

theorem missing_amount_kept_counterexample:
  "coerce_amounts (pd_to_numeric parse_ten) (rows numeric_sheet) =
     Some [\<lparr>r_customer = Some ''A'', r_amount = Num 10, r_profit = NaN\<rparr>,
           \<lparr>r_customer = Some ''B'', r_amount = NaN, r_profit = NaN\<rparr>]
   \<and> process_excel_data (\<lambda>f :: unit. Inr numeric_sheet) (pd_to_numeric parse_ten) () =
     Some \<lparr>has_profit = False, agg_rows =
       [\<lparr>customer = ''A'', total_amount = 10, total_profit = 0\<rparr>,
        \<lparr>customer = ''B'', total_amount = 0, total_profit = 0\<rparr>]\<rparr>"
proof -
  have "coerce_amounts (pd_to_numeric parse_ten) (rows numeric_sheet) =
     Some [\<lparr>r_customer = Some ''A'', r_amount = Num 10, r_profit = NaN\<rparr>,
           \<lparr>r_customer = Some ''B'', r_amount = NaN, r_profit = NaN\<rparr>]"
    by (simp add: coerce_amounts_def numeric_sheet_def dtype_object_def)
  moreover have "process_excel_data (\<lambda>f :: unit. Inr numeric_sheet) (pd_to_numeric parse_ten) () =
     Some \<lparr>has_profit = False, agg_rows =
       [\<lparr>customer = ''A'', total_amount = 10, total_profit = 0\<rparr>,
        \<lparr>customer = ''B'', total_amount = 0, total_profit = 0\<rparr>]\<rparr>"
    by code_simp
  ultimately show ?thesis by (rule conjI)
qed



text \<open>
  With the library's own conversion a cell that does not parse is no failure: it becomes a
  missing cell and the column is summed without it.
\<close>

lemma unparsable_profit_cell_skipped:
  "process_excel_data (\<lambda>f :: unit. Inr profit_sheet) (pd_to_numeric parse_ten) () =
     Some \<lparr>has_profit = True, agg_rows = [\<lparr>customer = ''A'', total_amount = 15, total_profit = 2\<rparr>]\<rparr>"
  by code_simp

section \<open>Summary metrics\<close>




section \<open>Filtering\<close>

text \<open>
  What the filter does when the term compiles: it keeps, in their order, the rows that
  pass the range test, the change test and the compiled pattern together; at the default
  settings it returns the table; on a term without a dot the modelled fragment of the
  pattern language is the substring test.
\<close>

lemma apply_filters_view:
  assumes "apply_filters re_compile selected_range selected_change search_term comparison_df = Inr view"
  shows "\<exists>found. (search_term \<noteq> [] \<longrightarrow> re_compile search_term = Inr found)
     \<and> view = filter (\<lambda>r. of_int (fst selected_range) \<le> current_amount r
                       \<and> current_amount r \<le> of_int (snd selected_range)
                       \<and> (case selected_change of
                            IncreaseOnly \<Rightarrow> 0 < delta_amount r
                          | DecreaseOnly \<Rightarrow> delta_amount r < 0
                          | ShowAll \<Rightarrow> True)
                       \<and> (search_term = [] \<or> found (c_name r))) comparison_df"
proof (cases "search_term = []")
  case True
  with assms show ?thesis
    by (cases selected_change) (auto simp: apply_filters_def intro: filter_cong)
next
  case False
  show ?thesis
  proof (cases "re_compile search_term")
    case (Inl e)
    with assms False show ?thesis
      by (simp add: apply_filters_def)
  next
    case (Inr found)
    with assms False show ?thesis
      by (cases selected_change) (auto simp: apply_filters_def intro!: exI [of _ found] filter_cong)
  qed
qed

lemma apply_filters_default:
  assumes "\<forall>r\<in>set comparison_df. of_int lo \<le> current_amount r \<and> current_amount r \<le> of_int hi"
  shows "apply_filters re_compile (lo, hi) ShowAll [] comparison_df = Inr comparison_df"
  using assms by (simp add: apply_filters_def)

lemma dot_free_match_at:
  assumes "CHR ''.'' \<notin> set pat"
  shows "match_at pat s = starts_with_ci pat s"
  using assms by (induction pat s rule: match_at.induct) (auto simp: atom_match_def)

lemma dot_free_search:
  assumes "CHR ''.'' \<notin> set pat"
  shows "dot_search pat s = spec_contains_ci pat s"
  using assms by (induction s) (simp_all add: dot_free_match_at)





text \<open>
  C9. The code at the search term \<^verbatim>\<open>(\<close>: when the library rejects the term as a
  pattern, the filter raises and there is no filtered view, whatever the range, the change
  filter and the table.
\<close>

theorem invalid_pattern_aborts_filter:
  assumes "re_compile ''('' = Inl e"
  shows "apply_filters re_compile selected_range selected_change ''('' comparison_df = Inl e"
  using assms by (simp add: apply_filters_def)

theorem invalid_pattern_aborts_filter_witness:
  "apply_filters (\<lambda>p. Inl ReError) (0, 10) ShowAll ''('' [abc_row] = Inl ReError"
  using invalid_pattern_aborts_filter [of "\<lambda>p. Inl ReError" ReError "(0, 10)" ShowAll "[abc_row]"] by simp

end
